theory Spec2Isabelle
  imports Complex_Main "HOL-Library.Sublist"
begin

section \<open>Monster Slayer: the battle logic of \<open>Game.jsx\<close>\<close>

text \<open>
  The component \<open>Game\<close> keeps ten pieces of React state and mutates them only through
  the setters returned by \<open>useState\<close>. An event handler runs against the values of one
  render (its closure); every setter call is put into React's update queue; after the
  handler has returned the queue is applied in call order, the component renders again
  and the effects whose dependencies changed are run against the new values.

  The embedding follows that structure: a handler maps the state of the render it
  belongs to (and the results of its \<open>Math.random()\<close> calls, in call order) to the
  list of setter calls it makes; \<open>commit\<close> applies such a list; \<open>runEffects\<close> is the
  effect pass; \<open>dispatch\<close> is one complete user action.

  Numbers of the program are integers throughout, modelled as \<open>int\<close>. A result of
  \<open>Math.random()\<close> is taken as a real number; the handlers' arithmetic on it is
  that of the source, with exact real multiplication in place of the double one.
\<close>

subsection \<open>Helper functions\<close>

definition getRandomValue :: "real \<Rightarrow> int \<Rightarrow> int \<Rightarrow> int" where
  "getRandomValue u mn mx = \<lfloor>u * of_int (mx - mn)\<rfloor> + mn"

definition isCriticalHit :: "real \<Rightarrow> bool" where
  "isCriticalHit u = (u < 0.2)"

text \<open>The decimal text a template literal gives an integer.\<close>

fun showNat :: "nat \<Rightarrow> string" where
  "showNat n =
     (if n < 10 then [''0123456789'' ! n]
      else showNat (n div 10) @ [''0123456789'' ! (n mod 10)])"

declare showNat.simps [simp del]

definition showInt :: "int \<Rightarrow> string" where
  "showInt i = (if i < 0 then CHR ''-'' # showNat (nat (- i)) else showNat (nat i))"

text \<open>
  A log entry. The entries made for a heal and for a surrender have no \<open>isCritical\<close>
  property: \<open>None\<close>.
\<close>

record logEntry =
  isPlayer :: bool
  isDamage :: bool
  isCritical :: "bool option"
  logText :: string

definition createLogAttack :: "bool \<Rightarrow> int \<Rightarrow> bool \<Rightarrow> logEntry" where
  "createLogAttack isPlayer' damage isCritical' =
     \<lparr> isPlayer = isPlayer',
       isDamage = True,
       isCritical = Some isCritical',
       logText = '' takes '' @ showInt damage @ '' damage''
                 @ (if isCritical' then '' (CRITICAL HIT!)'' else '''') \<rparr>"

definition createLogHeal :: "int \<Rightarrow> bool \<Rightarrow> logEntry" where
  "createLogHeal healing isMaxed =
     \<lparr> isPlayer = True,
       isDamage = False,
       isCritical = None,
       logText = '' heals '' @ showInt healing @ '' life points''
                 @ (if isMaxed then '' (MAX HEALTH!)'' else '''') \<rparr>"

subsection \<open>States and variables\<close>

record gameStats =
  playerDamageDealt :: int
  monsterDamageDealt :: int
  healingDone :: int
  criticalHits :: int
  roundsPlayed :: int

record gameState =
  playerHealth :: int
  monsterHealth :: int
  currentRound :: int
  battleLog :: "logEntry list"
  gameOver :: bool
  winner :: "string option"
  specialAttackAvailable :: bool
  specialAttackCooldown :: int
  lastActionWasCritical :: bool
  gameStats :: gameStats

definition initialState :: gameState where
  "initialState =
     \<lparr> playerHealth = 100,
       monsterHealth = 100,
       currentRound = 0,
       battleLog = [],
       gameOver = False,
       winner = None,
       specialAttackAvailable = True,
       specialAttackCooldown = 0,
       lastActionWasCritical = False,
       gameStats = \<lparr> playerDamageDealt = 0, monsterDamageDealt = 0, healingDone = 0,
                     criticalHits = 0, roundsPlayed = 0 \<rparr> \<rparr>"

definition ATTACK_MIN_DAMAGE :: int where "ATTACK_MIN_DAMAGE = 5"
definition ATTACK_MAX_DAMAGE :: int where "ATTACK_MAX_DAMAGE = 12"
definition SPECIAL_ATTACK_MIN_DAMAGE :: int where "SPECIAL_ATTACK_MIN_DAMAGE = 10"
definition SPECIAL_ATTACK_MAX_DAMAGE :: int where "SPECIAL_ATTACK_MAX_DAMAGE = 20"
definition MONSTER_ATTACK_MIN_DAMAGE :: int where "MONSTER_ATTACK_MIN_DAMAGE = 8"
definition MONSTER_ATTACK_MAX_DAMAGE :: int where "MONSTER_ATTACK_MAX_DAMAGE = 15"
definition HEAL_MIN_VALUE :: int where "HEAL_MIN_VALUE = 8"
definition HEAL_MAX_VALUE :: int where "HEAL_MAX_VALUE = 20"
definition SPECIAL_ATTACK_COOLDOWN :: int where "SPECIAL_ATTACK_COOLDOWN = 3"
definition CRITICAL_HIT_MULTIPLIER :: real where "CRITICAL_HIT_MULTIPLIER = 1.5"

subsection \<open>The update queue\<close>

text \<open>
  A setter is called with a value or with an updater function of the previous value.
\<close>

datatype 'a upd = Val 'a | Fn "'a \<Rightarrow> 'a"

fun applyUpd :: "'a upd \<Rightarrow> 'a \<Rightarrow> 'a" where
  "applyUpd (Val v) prev = v"
| "applyUpd (Fn f) prev = f prev"

datatype setState =
    SetPlayerHealth "int upd"
  | SetMonsterHealth "int upd"
  | SetCurrentRound "int upd"
  | SetBattleLog "logEntry list upd"
  | SetGameOver "bool upd"
  | SetWinner "string option upd"
  | SetSpecialAttackAvailable "bool upd"
  | SetSpecialAttackCooldown "int upd"
  | SetLastActionWasCritical "bool upd"
  | SetGameStats "gameStats upd"

fun applySet :: "setState \<Rightarrow> gameState \<Rightarrow> gameState" where
  "applySet (SetPlayerHealth u) s = s\<lparr>playerHealth := applyUpd u (playerHealth s)\<rparr>"
| "applySet (SetMonsterHealth u) s = s\<lparr>monsterHealth := applyUpd u (monsterHealth s)\<rparr>"
| "applySet (SetCurrentRound u) s = s\<lparr>currentRound := applyUpd u (currentRound s)\<rparr>"
| "applySet (SetBattleLog u) s = s\<lparr>battleLog := applyUpd u (battleLog s)\<rparr>"
| "applySet (SetGameOver u) s = s\<lparr>gameOver := applyUpd u (gameOver s)\<rparr>"
| "applySet (SetWinner u) s = s\<lparr>winner := applyUpd u (winner s)\<rparr>"
| "applySet (SetSpecialAttackAvailable u) s =
     s\<lparr>specialAttackAvailable := applyUpd u (specialAttackAvailable s)\<rparr>"
| "applySet (SetSpecialAttackCooldown u) s =
     s\<lparr>specialAttackCooldown := applyUpd u (specialAttackCooldown s)\<rparr>"
| "applySet (SetLastActionWasCritical u) s =
     s\<lparr>lastActionWasCritical := applyUpd u (lastActionWasCritical s)\<rparr>"
| "applySet (SetGameStats u) s = s\<lparr>gameStats := applyUpd u (gameStats s)\<rparr>"

text \<open>The queue is applied in the order of the calls.\<close>

definition commit :: "setState list \<Rightarrow> gameState \<Rightarrow> gameState" where
  "commit q s = fold applySet q s"

definition addLogMessage :: "logEntry \<Rightarrow> setState" where
  "addLogMessage logEntry' = SetBattleLog (Fn (\<lambda>prevLog. logEntry' # prevLog))"

subsection \<open>Button event functions\<close>

text \<open>
  Each handler reads the state \<open>s\<close> of the render it was created in: \<open>playerHealth\<close>,
  \<open>monsterHealth\<close>, \<open>gameOver\<close> and the others are constants of that render, which a
  setter call does not change. \<open>monsterAttack\<close>, called from another handler, is the
  function of that same render and reads the same \<open>s\<close>, whatever the caller has queued.
  The real arguments are the results of the calls of \<open>Math.random()\<close>, in call order.
\<close>

definition monsterAttack :: "real \<Rightarrow> real \<Rightarrow> gameState \<Rightarrow> setState list" where
  "monsterAttack u1 u2 s =
     (if gameOver s \<or> playerHealth s \<le> 0 \<or> monsterHealth s \<le> 0 then []
      else
        let critical = isCriticalHit u1;
            damage0 = getRandomValue u2 MONSTER_ATTACK_MIN_DAMAGE MONSTER_ATTACK_MAX_DAMAGE;
            damage = (if critical then \<lfloor>of_int damage0 * CRITICAL_HIT_MULTIPLIER\<rfloor> else damage0);
            newHealth = max (playerHealth s - damage) 0
        in [SetPlayerHealth (Val newHealth),
            SetGameStats (Fn (\<lambda>prev. prev\<lparr>monsterDamageDealt := monsterDamageDealt prev + damage\<rparr>)),
            addLogMessage (createLogAttack False damage critical)])"

definition attackMonster :: "real \<Rightarrow> real \<Rightarrow> real \<Rightarrow> real \<Rightarrow> gameState \<Rightarrow> setState list" where
  "attackMonster u1 u2 u3 u4 s =
     (if gameOver s \<or> playerHealth s \<le> 0 \<or> monsterHealth s \<le> 0 then []
      else
        let critical = isCriticalHit u1;
            damage0 = getRandomValue u2 ATTACK_MIN_DAMAGE ATTACK_MAX_DAMAGE;
            damage = (if critical then \<lfloor>of_int damage0 * CRITICAL_HIT_MULTIPLIER\<rfloor> else damage0);
            newMonsterHealth = max (monsterHealth s - damage) 0
        in [SetCurrentRound (Fn (\<lambda>prevRound. prevRound + 1))]
           @ (if critical
              then [SetLastActionWasCritical (Val True),
                    SetGameStats (Fn (\<lambda>prev. prev\<lparr>criticalHits := criticalHits prev + 1\<rparr>))]
              else [SetLastActionWasCritical (Val False)])
           @ [SetMonsterHealth (Val newMonsterHealth),
              SetGameStats (Fn (\<lambda>prev. prev\<lparr>playerDamageDealt := playerDamageDealt prev + damage,
                                            roundsPlayed := roundsPlayed prev + 1\<rparr>)),
              addLogMessage (createLogAttack True damage critical)]
           @ (if specialAttackCooldown s > 0
              then [SetSpecialAttackCooldown (Fn (\<lambda>prev. prev - 1))] else [])
           @ (if newMonsterHealth > 0 then monsterAttack u3 u4 s else []))"

definition specialAttackMonster :: "real \<Rightarrow> real \<Rightarrow> real \<Rightarrow> real \<Rightarrow> gameState \<Rightarrow> setState list" where
  "specialAttackMonster u1 u2 u3 u4 s =
     (if gameOver s \<or> playerHealth s \<le> 0 \<or> monsterHealth s \<le> 0 \<or> \<not> specialAttackAvailable s
      then []
      else
        let critical = isCriticalHit u1;
            damage0 = getRandomValue u2 SPECIAL_ATTACK_MIN_DAMAGE SPECIAL_ATTACK_MAX_DAMAGE;
            damage = (if critical then \<lfloor>of_int damage0 * CRITICAL_HIT_MULTIPLIER\<rfloor> else damage0);
            newMonsterHealth = max (monsterHealth s - damage) 0
        in [SetCurrentRound (Fn (\<lambda>prevRound. prevRound + 1))]
           @ (if critical
              then [SetLastActionWasCritical (Val True),
                    SetGameStats (Fn (\<lambda>prev. prev\<lparr>criticalHits := criticalHits prev + 1\<rparr>))]
              else [SetLastActionWasCritical (Val False)])
           @ [SetMonsterHealth (Val newMonsterHealth),
              SetGameStats (Fn (\<lambda>prev. prev\<lparr>playerDamageDealt := playerDamageDealt prev + damage,
                                            roundsPlayed := roundsPlayed prev + 1\<rparr>)),
              addLogMessage (createLogAttack True damage critical),
              SetSpecialAttackCooldown (Val SPECIAL_ATTACK_COOLDOWN),
              SetSpecialAttackAvailable (Val False)]
           @ (if newMonsterHealth > 0 then monsterAttack u3 u4 s else []))"

definition healPlayer :: "real \<Rightarrow> real \<Rightarrow> real \<Rightarrow> gameState \<Rightarrow> setState list" where
  "healPlayer u1 u2 u3 s =
     (if gameOver s \<or> playerHealth s \<le> 0 \<or> monsterHealth s \<le> 0 \<or> playerHealth s = 100
      then []
      else
        let healing = getRandomValue u1 HEAL_MIN_VALUE HEAL_MAX_VALUE;
            isMaxed = (playerHealth s + healing \<ge> 100);
            newPlayerHealth = min (playerHealth s + healing) 100
        in [SetCurrentRound (Fn (\<lambda>prevRound. prevRound + 1)),
            SetPlayerHealth (Val newPlayerHealth),
            SetGameStats (Fn (\<lambda>prev. prev\<lparr>healingDone := healingDone prev
                                             + (if isMaxed then 100 - playerHealth s else healing),
                                          roundsPlayed := roundsPlayed prev + 1\<rparr>)),
            addLogMessage (createLogHeal healing isMaxed)]
           @ (if specialAttackCooldown s > 0
              then [SetSpecialAttackCooldown (Fn (\<lambda>prev. prev - 1))] else [])
           @ monsterAttack u2 u3 s)"

definition surrenderEntry :: logEntry where
  "surrenderEntry =
     \<lparr> isPlayer = True, isDamage = False, isCritical = None,
       logText = '' surrendered to the monster!'' \<rparr>"

definition surrender :: "gameState \<Rightarrow> setState list" where
  "surrender s =
     (if gameOver s then []
      else [SetPlayerHealth (Val 0),
            SetWinner (Val (Some ''monster'')),
            SetGameOver (Val True),
            addLogMessage surrenderEntry])"

definition resetGame :: "gameState \<Rightarrow> setState list" where
  "resetGame s =
     [SetPlayerHealth (Val 100),
      SetMonsterHealth (Val 100),
      SetCurrentRound (Val 0),
      SetBattleLog (Val []),
      SetGameOver (Val False),
      SetWinner (Val None),
      SetSpecialAttackAvailable (Val True),
      SetSpecialAttackCooldown (Val 0),
      SetLastActionWasCritical (Val False),
      SetGameStats (Val \<lparr> playerDamageDealt = 0, monsterDamageDealt = 0, healingDone = 0,
                          criticalHits = 0, roundsPlayed = 0 \<rparr>)]"

definition checkForWinner :: "gameState \<Rightarrow> setState list" where
  "checkForWinner s =
     (if monsterHealth s \<le> 0 \<and> playerHealth s \<le> 0
      then [SetWinner (Val (Some ''draw'')), SetGameOver (Val True)]
      else if monsterHealth s \<le> 0
      then [SetWinner (Val (Some ''player'')), SetGameOver (Val True)]
      else if playerHealth s \<le> 0
      then [SetWinner (Val (Some ''monster'')), SetGameOver (Val True)]
      else [])"

subsection \<open>Effects\<close>

text \<open>The effect on \<open>[specialAttackCooldown]\<close>.\<close>

definition cooldownEffect :: "gameState \<Rightarrow> setState list" where
  "cooldownEffect s =
     (if specialAttackCooldown s > 0
      then [SetSpecialAttackAvailable (Val False)]
      else [SetSpecialAttackAvailable (Val True)])"

text \<open>
  The effect pass after a render with state \<open>cur\<close> that follows a render with state
  \<open>prev\<close>: an effect runs when one of its dependencies differs from the previous render,
  in the order of declaration, against \<open>cur\<close>. (The effect on \<open>[battleLog]\<close> only
  scrolls the log container and sets no state.)
\<close>

definition runEffects :: "gameState \<Rightarrow> gameState \<Rightarrow> gameState" where
  "runEffects prev cur =
     commit
       ((if specialAttackCooldown cur \<noteq> specialAttackCooldown prev
         then cooldownEffect cur else [])
        @ (if playerHealth cur \<noteq> playerHealth prev \<or> monsterHealth cur \<noteq> monsterHealth prev
           then checkForWinner cur else []))
       cur"

text \<open>One complete action: the handler, the commit of its queue, the effect pass.\<close>

definition dispatch :: "(gameState \<Rightarrow> setState list) \<Rightarrow> gameState \<Rightarrow> gameState" where
  "dispatch handler s = runEffects s (commit (handler s) s)"

subsection \<open>Sequences of actions\<close>

datatype action =
    Attack real real real real
  | SpecialAttack real real real real
  | Heal real real real
  | Surrender
  | Reset

fun handler :: "action \<Rightarrow> gameState \<Rightarrow> setState list" where
  "handler (Attack u1 u2 u3 u4) = attackMonster u1 u2 u3 u4"
| "handler (SpecialAttack u1 u2 u3 u4) = specialAttackMonster u1 u2 u3 u4"
| "handler (Heal u1 u2 u3) = healPlayer u1 u2 u3"
| "handler Surrender = surrender"
| "handler Reset = resetGame"

definition perform :: "action \<Rightarrow> gameState \<Rightarrow> gameState" where
  "perform a s = dispatch (handler a) s"

text \<open>\<open>Math.random()\<close> returns a number from 0 (inclusive) to 1 (exclusive).\<close>

definition randomResult :: "real \<Rightarrow> bool" where
  "randomResult u = (0 \<le> u \<and> u < 1)"

fun validAction :: "action \<Rightarrow> bool" where
  "validAction (Attack u1 u2 u3 u4) = (randomResult u1 \<and> randomResult u2 \<and> randomResult u3 \<and> randomResult u4)"
| "validAction (SpecialAttack u1 u2 u3 u4) = (randomResult u1 \<and> randomResult u2 \<and> randomResult u3 \<and> randomResult u4)"
| "validAction (Heal u1 u2 u3) = (randomResult u1 \<and> randomResult u2 \<and> randomResult u3)"
| "validAction Surrender = True"
| "validAction Reset = True"

text \<open>The state after a sequence of actions on a freshly mounted component.\<close>

definition run :: "action list \<Rightarrow> gameState" where
  "run as = fold perform as initialState"

subsection \<open>Notions used in the statements\<close>

text \<open>
  The damage of one blow: the roll, multiplied and rounded down on a critical hit. The
  three attack functions compute it with the same lines.
\<close>

definition hitDamage :: "real \<Rightarrow> real \<Rightarrow> int \<Rightarrow> int \<Rightarrow> int" where
  "hitDamage u1 u2 mn mx =
     (if isCriticalHit u1 then \<lfloor>of_int (getRandomValue u2 mn mx) * CRITICAL_HIT_MULTIPLIER\<rfloor>
      else getRandomValue u2 mn mx)"

definition healthsClamped :: "gameState \<Rightarrow> bool" where
  "healthsClamped s =
     (0 \<le> playerHealth s \<and> playerHealth s \<le> 100 \<and>
      0 \<le> monsterHealth s \<and> monsterHealth s \<le> 100)"

text \<open>What holds of every state the component can be in.\<close>

definition consistent :: "gameState \<Rightarrow> bool" where
  "consistent s =
     (healthsClamped s \<and>
      gameOver s = (playerHealth s \<le> 0 \<or> monsterHealth s \<le> 0) \<and>
      specialAttackAvailable s = (specialAttackCooldown s = 0) \<and>
      0 \<le> specialAttackCooldown s \<and> specialAttackCooldown s \<le> 3)"

text \<open>
  While the special attack cools down in a game that is not over, the player has been
  hit: the monster answers every special attack it survives.
\<close>

definition woundedWhileCooling :: "gameState \<Rightarrow> bool" where
  "woundedWhileCooling s =
     (specialAttackCooldown s \<le> 0 \<or> gameOver s \<or> playerHealth s < 100)"

text \<open>A setter call that keeps a health within 0 and 100.\<close>

fun clampedSet :: "setState \<Rightarrow> bool" where
  "clampedSet (SetPlayerHealth (Val v)) = (0 \<le> v \<and> v \<le> 100)"
| "clampedSet (SetPlayerHealth (Fn f)) = False"
| "clampedSet (SetMonsterHealth (Val v)) = (0 \<le> v \<and> v \<le> 100)"
| "clampedSet (SetMonsterHealth (Fn f)) = False"
| "clampedSet _ = True"

text \<open>A log entry shows that a heal was capped by the suffix of its text.\<close>

definition capped :: "logEntry \<Rightarrow> bool" where
  "capped e = suffix '' (MAX HEALTH!)'' (logText e)"


text \<open>
  Sample games. In \<open>nearlySlain\<close> every blow of the player is critical with the highest
  roll and every blow of the monster is plain with the lowest one; \<open>slayTheMonster\<close>
  ends it with a special attack.
\<close>

definition firstBlow :: "action list" where
  "firstBlow = [Attack (1/2) (1/2) (1/2) (3/10)]"

definition midFight :: "action list" where
  "midFight =
     [SpecialAttack (1/10) (19/20) (1/2) 0,
      Attack (1/10) (19/20) (1/2) 0]"

definition nearlySlain :: "action list" where
  "nearlySlain =
     [SpecialAttack (1/10) (19/20) (1/2) 0,
      Attack (1/10) (19/20) (1/2) 0,
      Attack (1/10) (19/20) (1/2) 0,
      Attack (1/10) (19/20) (1/2) 0,
      Attack (1/10) (19/20) (1/2) 0]"

definition slayTheMonster :: "action list" where
  "slayTheMonster = nearlySlain @ [SpecialAttack (1/10) (19/20) (1/2) 0]"

section \<open>Properties\<close>

subsection \<open>Rolls\<close>

lemmas constants =
  ATTACK_MIN_DAMAGE_def ATTACK_MAX_DAMAGE_def SPECIAL_ATTACK_MIN_DAMAGE_def
  SPECIAL_ATTACK_MAX_DAMAGE_def MONSTER_ATTACK_MIN_DAMAGE_def MONSTER_ATTACK_MAX_DAMAGE_def
  HEAL_MIN_VALUE_def HEAL_MAX_VALUE_def SPECIAL_ATTACK_COOLDOWN_def
  CRITICAL_HIT_MULTIPLIER_def

lemma getRandomValue_range:
  assumes "randomResult u" "mn < mx"
  shows "mn \<le> getRandomValue u mn mx \<and> getRandomValue u mn mx < mx"
proof -
  from assms have u: "0 \<le> u" "u < 1" by (simp_all add: randomResult_def)
  let ?n = "of_int (mx - mn) :: real"
  have n: "0 < ?n" using assms(2) by simp
  have "0 \<le> u * ?n" using u n by simp
  then have lo: "0 \<le> \<lfloor>u * ?n\<rfloor>" by simp
  have "u * ?n < ?n" using u n by simp
  then have hi: "\<lfloor>u * ?n\<rfloor> < mx - mn" by (simp add: floor_less_iff)
  from lo hi show ?thesis by (simp add: getRandomValue_def)
qed

lemma critical_floor: "\<lfloor>of_int d * CRITICAL_HIT_MULTIPLIER\<rfloor> = (3 * d) div 2"
proof -
  have "of_int d * CRITICAL_HIT_MULTIPLIER = (of_int (3 * d) :: real) / of_int 2"
    by (simp add: CRITICAL_HIT_MULTIPLIER_def)
  then show ?thesis by (simp only: floor_divide_of_int_eq)
qed

lemma hitDamage_range:
  assumes "randomResult u2" "0 \<le> mn" "mn < mx"
  shows "mn \<le> hitDamage u1 u2 mn mx \<and> 2 * hitDamage u1 u2 mn mx \<le> 3 * (mx - 1)"
  using getRandomValue_range [OF assms(1,3)] assms(2)
  by (auto simp: hitDamage_def critical_floor)

lemma healing_range:
  "randomResult u \<Longrightarrow>
     8 \<le> getRandomValue u HEAL_MIN_VALUE HEAL_MAX_VALUE \<and>
     getRandomValue u HEAL_MIN_VALUE HEAL_MAX_VALUE < 20"
  using getRandomValue_range [of u 8 20] by (simp add: constants)

subsection \<open>What a handler's queue does to the state\<close>

lemma commit_simps [simp]:
  "commit [] s = s"
  "commit (x # q) s = commit q (applySet x s)"
  "commit (q @ q') s = commit q' (commit q s)"
  by (simp_all add: commit_def)

lemma monsterAttack_eq:
  "monsterAttack u1 u2 s =
     (if gameOver s \<or> playerHealth s \<le> 0 \<or> monsterHealth s \<le> 0 then []
      else [SetPlayerHealth (Val (max (playerHealth s - hitDamage u1 u2 8 15) 0)),
            SetGameStats (Fn (\<lambda>prev. prev\<lparr>monsterDamageDealt :=
               monsterDamageDealt prev + hitDamage u1 u2 8 15\<rparr>)),
            addLogMessage (createLogAttack False (hitDamage u1 u2 8 15) (isCriticalHit u1))])"
  by (simp add: monsterAttack_def hitDamage_def Let_def constants)

lemma attackMonster_eq:
  "attackMonster u1 u2 u3 u4 s =
     (if gameOver s \<or> playerHealth s \<le> 0 \<or> monsterHealth s \<le> 0 then []
      else
        [SetCurrentRound (Fn (\<lambda>prevRound. prevRound + 1))]
        @ (if isCriticalHit u1
           then [SetLastActionWasCritical (Val True),
                 SetGameStats (Fn (\<lambda>prev. prev\<lparr>criticalHits := criticalHits prev + 1\<rparr>))]
           else [SetLastActionWasCritical (Val False)])
        @ [SetMonsterHealth (Val (max (monsterHealth s - hitDamage u1 u2 5 12) 0)),
           SetGameStats (Fn (\<lambda>prev. prev\<lparr>
              playerDamageDealt := playerDamageDealt prev + hitDamage u1 u2 5 12,
              roundsPlayed := roundsPlayed prev + 1\<rparr>)),
           addLogMessage (createLogAttack True (hitDamage u1 u2 5 12) (isCriticalHit u1))]
        @ (if specialAttackCooldown s > 0
           then [SetSpecialAttackCooldown (Fn (\<lambda>prev. prev - 1))] else [])
        @ (if max (monsterHealth s - hitDamage u1 u2 5 12) 0 > 0
           then monsterAttack u3 u4 s else []))"
  by (simp add: attackMonster_def hitDamage_def Let_def constants)

lemma specialAttackMonster_eq:
  "specialAttackMonster u1 u2 u3 u4 s =
     (if gameOver s \<or> playerHealth s \<le> 0 \<or> monsterHealth s \<le> 0
         \<or> \<not> specialAttackAvailable s then []
      else
        [SetCurrentRound (Fn (\<lambda>prevRound. prevRound + 1))]
        @ (if isCriticalHit u1
           then [SetLastActionWasCritical (Val True),
                 SetGameStats (Fn (\<lambda>prev. prev\<lparr>criticalHits := criticalHits prev + 1\<rparr>))]
           else [SetLastActionWasCritical (Val False)])
        @ [SetMonsterHealth (Val (max (monsterHealth s - hitDamage u1 u2 10 20) 0)),
           SetGameStats (Fn (\<lambda>prev. prev\<lparr>
              playerDamageDealt := playerDamageDealt prev + hitDamage u1 u2 10 20,
              roundsPlayed := roundsPlayed prev + 1\<rparr>)),
           addLogMessage (createLogAttack True (hitDamage u1 u2 10 20) (isCriticalHit u1)),
           SetSpecialAttackCooldown (Val 3),
           SetSpecialAttackAvailable (Val False)]
        @ (if max (monsterHealth s - hitDamage u1 u2 10 20) 0 > 0
           then monsterAttack u3 u4 s else []))"
  by (simp add: specialAttackMonster_def hitDamage_def Let_def constants)

lemma commit_monsterAttack:
  assumes "\<not> gameOver s" "0 < playerHealth s" "0 < monsterHealth s"
  shows "commit (monsterAttack u1 u2 s) t =
     t\<lparr>playerHealth := max (playerHealth s - hitDamage u1 u2 8 15) 0,
       gameStats := (gameStats t)\<lparr>monsterDamageDealt :=
          monsterDamageDealt (gameStats t) + hitDamage u1 u2 8 15\<rparr>,
       battleLog := createLogAttack False (hitDamage u1 u2 8 15) (isCriticalHit u1)
                    # battleLog t\<rparr>"
  using assms by (simp add: monsterAttack_eq addLogMessage_def)

lemma commit_attackMonster:
  assumes "\<not> gameOver s" "0 < playerHealth s" "0 < monsterHealth s"
  shows "commit (attackMonster u1 u2 u3 u4 s) s =
     (let d = hitDamage u1 u2 5 12; m = hitDamage u3 u4 8 15;
          newMonsterHealth = max (monsterHealth s - d) 0 in
      s\<lparr>currentRound := currentRound s + 1,
        lastActionWasCritical := isCriticalHit u1,
        monsterHealth := newMonsterHealth,
        playerHealth :=
          (if 0 < newMonsterHealth then max (playerHealth s - m) 0 else playerHealth s),
        specialAttackCooldown :=
          (if 0 < specialAttackCooldown s then specialAttackCooldown s - 1
           else specialAttackCooldown s),
        gameStats := (gameStats s)\<lparr>
          criticalHits := criticalHits (gameStats s) + (if isCriticalHit u1 then 1 else 0),
          playerDamageDealt := playerDamageDealt (gameStats s) + d,
          roundsPlayed := roundsPlayed (gameStats s) + 1,
          monsterDamageDealt :=
            monsterDamageDealt (gameStats s) + (if 0 < newMonsterHealth then m else 0)\<rparr>,
        battleLog :=
          (if 0 < newMonsterHealth then [createLogAttack False m (isCriticalHit u3)] else [])
          @ createLogAttack True d (isCriticalHit u1) # battleLog s\<rparr>)"
  using assms
  by (simp add: attackMonster_eq commit_monsterAttack addLogMessage_def Let_def)

lemma commit_specialAttackMonster:
  assumes "\<not> gameOver s" "0 < playerHealth s" "0 < monsterHealth s" "specialAttackAvailable s"
  shows "commit (specialAttackMonster u1 u2 u3 u4 s) s =
     (let d = hitDamage u1 u2 10 20; m = hitDamage u3 u4 8 15;
          newMonsterHealth = max (monsterHealth s - d) 0 in
      s\<lparr>currentRound := currentRound s + 1,
        lastActionWasCritical := isCriticalHit u1,
        monsterHealth := newMonsterHealth,
        playerHealth :=
          (if 0 < newMonsterHealth then max (playerHealth s - m) 0 else playerHealth s),
        specialAttackCooldown := 3,
        specialAttackAvailable := False,
        gameStats := (gameStats s)\<lparr>
          criticalHits := criticalHits (gameStats s) + (if isCriticalHit u1 then 1 else 0),
          playerDamageDealt := playerDamageDealt (gameStats s) + d,
          roundsPlayed := roundsPlayed (gameStats s) + 1,
          monsterDamageDealt :=
            monsterDamageDealt (gameStats s) + (if 0 < newMonsterHealth then m else 0)\<rparr>,
        battleLog :=
          (if 0 < newMonsterHealth then [createLogAttack False m (isCriticalHit u3)] else [])
          @ createLogAttack True d (isCriticalHit u1) # battleLog s\<rparr>)"
  using assms
  by (simp add: specialAttackMonster_eq commit_monsterAttack addLogMessage_def Let_def)

text \<open>
  The heal: the value written by the handler itself is overwritten by the one that
  \<open>monsterAttack\<close> computes from the health of the same render.
\<close>

lemma commit_healPlayer:
  assumes "\<not> gameOver s" "0 < playerHealth s" "0 < monsterHealth s" "playerHealth s \<noteq> 100"
  shows "commit (healPlayer u1 u2 u3 s) s =
     (let healing = getRandomValue u1 HEAL_MIN_VALUE HEAL_MAX_VALUE;
          isMaxed = (100 \<le> playerHealth s + healing);
          m = hitDamage u2 u3 8 15 in
      s\<lparr>currentRound := currentRound s + 1,
        playerHealth := max (playerHealth s - m) 0,
        specialAttackCooldown :=
          (if 0 < specialAttackCooldown s then specialAttackCooldown s - 1
           else specialAttackCooldown s),
        gameStats := (gameStats s)\<lparr>
          healingDone := healingDone (gameStats s)
                         + (if isMaxed then 100 - playerHealth s else healing),
          roundsPlayed := roundsPlayed (gameStats s) + 1,
          monsterDamageDealt := monsterDamageDealt (gameStats s) + m\<rparr>,
        battleLog := createLogAttack False m (isCriticalHit u2)
                     # createLogHeal healing isMaxed # battleLog s\<rparr>)"
  using assms
  by (simp add: healPlayer_def commit_monsterAttack addLogMessage_def Let_def)

lemma commit_surrender:
  "\<not> gameOver s \<Longrightarrow> commit (surrender s) s =
     s\<lparr>playerHealth := 0, winner := Some ''monster'', gameOver := True,
       battleLog := surrenderEntry # battleLog s\<rparr>"
  by (simp add: surrender_def addLogMessage_def)

lemma commit_resetGame: "commit (resetGame s) s = initialState"
  by (simp add: resetGame_def initialState_def)

subsection \<open>The effect pass\<close>

lemma runEffects_eq:
  "runEffects prev cur =
     cur\<lparr>specialAttackAvailable :=
           (if specialAttackCooldown cur \<noteq> specialAttackCooldown prev
            then \<not> 0 < specialAttackCooldown cur else specialAttackAvailable cur),
         winner :=
           (if playerHealth cur \<noteq> playerHealth prev \<or> monsterHealth cur \<noteq> monsterHealth prev
            then (if monsterHealth cur \<le> 0 \<and> playerHealth cur \<le> 0 then Some ''draw''
                  else if monsterHealth cur \<le> 0 then Some ''player''
                  else if playerHealth cur \<le> 0 then Some ''monster''
                  else winner cur)
            else winner cur),
         gameOver :=
           (if (playerHealth cur \<noteq> playerHealth prev \<or> monsterHealth cur \<noteq> monsterHealth prev)
               \<and> (monsterHealth cur \<le> 0 \<or> playerHealth cur \<le> 0)
            then True else gameOver cur)\<rparr>"
  by (simp add: runEffects_def cooldownEffect_def checkForWinner_def)

text \<open>
  The effects set none of their own dependencies: the render that follows an effect
  pass runs no effect, and the state is at rest.
\<close>

lemma runEffects_at_rest: "runEffects cur (runEffects prev cur) = runEffects prev cur"
  by (simp add: runEffects_eq)

text \<open>On mount every effect runs once, against the initial state, and changes nothing.\<close>

lemma mount_effects:
  "commit (cooldownEffect initialState @ checkForWinner initialState) initialState
     = initialState"
  by (simp add: cooldownEffect_def checkForWinner_def initialState_def)

lemma runEffects_same [simp]: "runEffects s s = s"
  by (simp add: runEffects_eq)

lemma dispatch_noop: "h s = [] \<Longrightarrow> dispatch h s = s"
  by (simp add: dispatch_def)

lemma perform_Attack_noop:
  "gameOver s \<or> playerHealth s \<le> 0 \<or> monsterHealth s \<le> 0 \<Longrightarrow>
     perform (Attack u1 u2 u3 u4) s = s"
  by (simp add: perform_def dispatch_noop attackMonster_def)

lemma perform_SpecialAttack_noop:
  "gameOver s \<or> playerHealth s \<le> 0 \<or> monsterHealth s \<le> 0 \<or> \<not> specialAttackAvailable s \<Longrightarrow>
     perform (SpecialAttack u1 u2 u3 u4) s = s"
  by (simp add: perform_def dispatch_noop specialAttackMonster_def)

lemma perform_Heal_noop:
  "gameOver s \<or> playerHealth s \<le> 0 \<or> monsterHealth s \<le> 0 \<or> playerHealth s = 100 \<Longrightarrow>
     perform (Heal u1 u2 u3) s = s"
  by (simp add: perform_def dispatch_noop healPlayer_def)

lemma perform_Surrender_noop: "gameOver s \<Longrightarrow> perform Surrender s = s"
  by (simp add: perform_def dispatch_noop surrender_def)

subsection \<open>The fields the invariants are about, after each action\<close>

lemma perform_Attack_fields:
  fixes u1 u2 u3 u4 :: real and s :: gameState
  assumes "\<not> gameOver s" "0 < playerHealth s" "0 < monsterHealth s"
    and "randomResult u2" "randomResult u4"
  defines "s' \<equiv> perform (Attack u1 u2 u3 u4) s"
  shows "monsterHealth s' = max (monsterHealth s - hitDamage u1 u2 5 12) 0"
    and "playerHealth s' =
           (if 0 < monsterHealth s' then max (playerHealth s - hitDamage u3 u4 8 15) 0
            else playerHealth s)"
    and "gameOver s' = (monsterHealth s' \<le> 0 \<or> playerHealth s' \<le> 0)"
    and "specialAttackCooldown s' =
           (if 0 < specialAttackCooldown s then specialAttackCooldown s - 1
            else specialAttackCooldown s)"
    and "specialAttackAvailable s' =
           (if 0 < specialAttackCooldown s then \<not> 0 < specialAttackCooldown s'
            else specialAttackAvailable s)"
proof -
  have d: "5 \<le> hitDamage u1 u2 5 12" and m: "8 \<le> hitDamage u3 u4 8 15"
    using hitDamage_range [of u2 5 12 u1] hitDamage_range [of u4 8 15 u3] assms(4,5)
    by simp_all
  have s': "s' = runEffects s (commit (attackMonster u1 u2 u3 u4 s) s)"
    by (simp add: s'_def perform_def dispatch_def)
  note unf = s' commit_attackMonster [OF assms(1-3)] runEffects_eq Let_def
  show "monsterHealth s' = max (monsterHealth s - hitDamage u1 u2 5 12) 0"
    by (simp add: unf)
  show "playerHealth s' =
           (if 0 < monsterHealth s' then max (playerHealth s - hitDamage u3 u4 8 15) 0
            else playerHealth s)"
    by (simp add: unf)
  show "gameOver s' = (monsterHealth s' \<le> 0 \<or> playerHealth s' \<le> 0)"
    using assms(1-3) d m by (simp add: unf) linarith
  show "specialAttackCooldown s' =
           (if 0 < specialAttackCooldown s then specialAttackCooldown s - 1
            else specialAttackCooldown s)"
    by (simp add: unf)
  show "specialAttackAvailable s' =
           (if 0 < specialAttackCooldown s then \<not> 0 < specialAttackCooldown s'
            else specialAttackAvailable s)"
    by (simp add: unf)
qed


lemma perform_SpecialAttack_fields:
  fixes u1 u2 u3 u4 :: real and s :: gameState
  assumes "\<not> gameOver s" "0 < playerHealth s" "0 < monsterHealth s" "specialAttackAvailable s"
    and "randomResult u2" "randomResult u4"
  defines "s' \<equiv> perform (SpecialAttack u1 u2 u3 u4) s"
  shows "monsterHealth s' = max (monsterHealth s - hitDamage u1 u2 10 20) 0"
    and "playerHealth s' =
           (if 0 < monsterHealth s' then max (playerHealth s - hitDamage u3 u4 8 15) 0
            else playerHealth s)"
    and "gameOver s' = (monsterHealth s' \<le> 0 \<or> playerHealth s' \<le> 0)"
    and "specialAttackCooldown s' = 3"
    and "specialAttackAvailable s' = False"
proof -
  have d: "10 \<le> hitDamage u1 u2 10 20" and m: "8 \<le> hitDamage u3 u4 8 15"
    using hitDamage_range [of u2 10 20 u1] hitDamage_range [of u4 8 15 u3] assms(5,6)
    by simp_all
  have s': "s' = runEffects s (commit (specialAttackMonster u1 u2 u3 u4 s) s)"
    by (simp add: s'_def perform_def dispatch_def)
  note unf = s' commit_specialAttackMonster [OF assms(1-4)] runEffects_eq Let_def
  show "monsterHealth s' = max (monsterHealth s - hitDamage u1 u2 10 20) 0"
    by (simp add: unf)
  show "playerHealth s' =
           (if 0 < monsterHealth s' then max (playerHealth s - hitDamage u3 u4 8 15) 0
            else playerHealth s)"
    by (simp add: unf)
  show "gameOver s' = (monsterHealth s' \<le> 0 \<or> playerHealth s' \<le> 0)"
    using assms(1-3) d m by (simp add: unf) linarith
  show "specialAttackCooldown s' = 3"
    by (simp add: unf)
  show "specialAttackAvailable s' = False"
    by (simp add: unf)
qed

lemma perform_Heal_fields:
  fixes u1 u2 u3 :: real and s :: gameState
  assumes "\<not> gameOver s" "0 < playerHealth s" "0 < monsterHealth s" "playerHealth s \<noteq> 100"
    and "randomResult u3"
  defines "s' \<equiv> perform (Heal u1 u2 u3) s"
  shows "monsterHealth s' = monsterHealth s"
    and "playerHealth s' = max (playerHealth s - hitDamage u2 u3 8 15) 0"
    and "gameOver s' = (monsterHealth s' \<le> 0 \<or> playerHealth s' \<le> 0)"
    and "specialAttackCooldown s' =
           (if 0 < specialAttackCooldown s then specialAttackCooldown s - 1
            else specialAttackCooldown s)"
    and "specialAttackAvailable s' =
           (if 0 < specialAttackCooldown s then \<not> 0 < specialAttackCooldown s'
            else specialAttackAvailable s)"
proof -
  have m: "8 \<le> hitDamage u2 u3 8 15"
    using hitDamage_range [of u3 8 15 u2] assms(5) by simp
  have s': "s' = runEffects s (commit (healPlayer u1 u2 u3 s) s)"
    by (simp add: s'_def perform_def dispatch_def)
  note unf = s' commit_healPlayer [OF assms(1-4)] runEffects_eq Let_def
  show "monsterHealth s' = monsterHealth s"
    by (simp add: unf)
  show "playerHealth s' = max (playerHealth s - hitDamage u2 u3 8 15) 0"
    by (simp add: unf)
  show "gameOver s' = (monsterHealth s' \<le> 0 \<or> playerHealth s' \<le> 0)"
    using assms(1-3) m by (simp add: unf) linarith
  show "specialAttackCooldown s' =
           (if 0 < specialAttackCooldown s then specialAttackCooldown s - 1
            else specialAttackCooldown s)"
    by (simp add: unf)
  show "specialAttackAvailable s' =
           (if 0 < specialAttackCooldown s then \<not> 0 < specialAttackCooldown s'
            else specialAttackAvailable s)"
    by (simp add: unf)
qed

lemma perform_Surrender_eq:
  assumes "\<not> gameOver s"
  shows "perform Surrender s =
     s\<lparr>playerHealth := 0,
       winner := (if playerHealth s \<noteq> 0 \<and> monsterHealth s \<le> 0
                  then Some ''draw'' else Some ''monster''),
       gameOver := True,
       battleLog := surrenderEntry # battleLog s\<rparr>"
  using assms
  by (simp add: perform_def dispatch_def commit_surrender runEffects_eq)

lemma perform_Reset_eq: "perform Reset s = initialState"
proof -
  have "perform Reset s = runEffects s initialState"
    by (simp add: perform_def dispatch_def commit_resetGame)
  also have "\<dots> = initialState"
    by (simp add: runEffects_eq initialState_def)
  finally show ?thesis .
qed

subsection \<open>Every state the component reaches is consistent\<close>

lemma consistent_initialState: "consistent initialState"
  by (simp add: consistent_def healthsClamped_def initialState_def)

lemma consistent_Attack:
  assumes "consistent s" "validAction (Attack u1 u2 u3 u4)"
  shows "consistent (perform (Attack u1 u2 u3 u4) s)"
proof (cases "gameOver s \<or> playerHealth s \<le> 0 \<or> monsterHealth s \<le> 0")
  case True
  then show ?thesis using assms(1) by (simp add: perform_Attack_noop)
next
  case False
  then have g: "\<not> gameOver s" "0 < playerHealth s" "0 < monsterHealth s" by simp_all
  from assms(2) have r: "randomResult u2" "randomResult u4" by simp_all
  have d: "5 \<le> hitDamage u1 u2 5 12" and m: "8 \<le> hitDamage u3 u4 8 15"
    using hitDamage_range [of u2 5 12 u1] hitDamage_range [of u4 8 15 u3] r by simp_all
  note f = perform_Attack_fields [OF g r, of u1 u3]
  have "healthsClamped (perform (Attack u1 u2 u3 u4) s)"
    using assms(1) d m unfolding healthsClamped_def consistent_def f(2) f(1) by simp
  moreover have "specialAttackAvailable (perform (Attack u1 u2 u3 u4) s)
      = (specialAttackCooldown (perform (Attack u1 u2 u3 u4) s) = 0)"
    using assms(1) unfolding consistent_def f(5) f(4) by auto
  moreover have "0 \<le> specialAttackCooldown (perform (Attack u1 u2 u3 u4) s)
      \<and> specialAttackCooldown (perform (Attack u1 u2 u3 u4) s) \<le> 3"
    using assms(1) unfolding consistent_def f(4) by auto
  ultimately show ?thesis
    unfolding consistent_def using f(3) by blast
qed


lemma consistent_SpecialAttack:
  assumes "consistent s" "validAction (SpecialAttack u1 u2 u3 u4)"
  shows "consistent (perform (SpecialAttack u1 u2 u3 u4) s)"
proof (cases "gameOver s \<or> playerHealth s \<le> 0 \<or> monsterHealth s \<le> 0
                \<or> \<not> specialAttackAvailable s")
  case True
  then show ?thesis using assms(1) by (simp add: perform_SpecialAttack_noop)
next
  case False
  then have g: "\<not> gameOver s" "0 < playerHealth s" "0 < monsterHealth s"
    "specialAttackAvailable s" by simp_all
  from assms(2) have r: "randomResult u2" "randomResult u4" by simp_all
  have d: "10 \<le> hitDamage u1 u2 10 20" and m: "8 \<le> hitDamage u3 u4 8 15"
    using hitDamage_range [of u2 10 20 u1] hitDamage_range [of u4 8 15 u3] r by simp_all
  note f = perform_SpecialAttack_fields [OF g r, of u1 u3]
  have "healthsClamped (perform (SpecialAttack u1 u2 u3 u4) s)"
    using assms(1) d m unfolding healthsClamped_def consistent_def f(2) f(1) by simp
  then show ?thesis
    unfolding consistent_def using f(3) f(4) f(5) by auto
qed

lemma consistent_Heal:
  assumes "consistent s" "validAction (Heal u1 u2 u3)"
  shows "consistent (perform (Heal u1 u2 u3) s)"
proof (cases "gameOver s \<or> playerHealth s \<le> 0 \<or> monsterHealth s \<le> 0
                \<or> playerHealth s = 100")
  case True
  then show ?thesis using assms(1) by (simp add: perform_Heal_noop)
next
  case False
  then have g: "\<not> gameOver s" "0 < playerHealth s" "0 < monsterHealth s"
    "playerHealth s \<noteq> 100" by simp_all
  from assms(2) have r: "randomResult u3" by simp
  have m: "8 \<le> hitDamage u2 u3 8 15"
    using hitDamage_range [of u3 8 15 u2] r by simp
  note f = perform_Heal_fields [OF g r, of u1 u2]
  have "healthsClamped (perform (Heal u1 u2 u3) s)"
    using assms(1) m unfolding healthsClamped_def consistent_def f(2) f(1) by simp
  moreover have "specialAttackAvailable (perform (Heal u1 u2 u3) s)
      = (specialAttackCooldown (perform (Heal u1 u2 u3) s) = 0)"
    using assms(1) unfolding consistent_def f(5) f(4) by auto
  moreover have "0 \<le> specialAttackCooldown (perform (Heal u1 u2 u3) s)
      \<and> specialAttackCooldown (perform (Heal u1 u2 u3) s) \<le> 3"
    using assms(1) unfolding consistent_def f(4) by auto
  ultimately show ?thesis
    unfolding consistent_def using f(3) by blast
qed

lemma consistent_Surrender:
  assumes "consistent s"
  shows "consistent (perform Surrender s)"
proof (cases "gameOver s")
  case True
  then show ?thesis using assms by (simp add: perform_Surrender_noop)
next
  case False
  then show ?thesis
    using assms by (simp add: perform_Surrender_eq consistent_def healthsClamped_def)
qed

lemma consistent_perform:
  assumes "consistent s" "validAction a"
  shows "consistent (perform a s)"
proof (cases a)
  case (Attack u1 u2 u3 u4)
  then show ?thesis using assms consistent_Attack by simp
next
  case (SpecialAttack u1 u2 u3 u4)
  then show ?thesis using assms consistent_SpecialAttack by simp
next
  case (Heal u1 u2 u3)
  then show ?thesis using assms consistent_Heal by simp
next
  case Surrender
  then show ?thesis using assms consistent_Surrender by simp
next
  case Reset
  then show ?thesis by (simp add: perform_Reset_eq consistent_initialState)
qed

lemma consistent_fold:
  "consistent s \<Longrightarrow> list_all validAction as \<Longrightarrow> consistent (fold perform as s)"
  by (induction as arbitrary: s) (simp_all add: consistent_perform)

lemma consistent_run: "list_all validAction as \<Longrightarrow> consistent (run as)"
  unfolding run_def by (rule consistent_fold [OF consistent_initialState])

lemma run_snoc: "run (as @ [a]) = perform a (run as)"
  by (simp add: run_def)

lemma wounded_Attack:
  assumes "consistent s" "woundedWhileCooling s" "validAction (Attack u1 u2 u3 u4)"
  shows "woundedWhileCooling (perform (Attack u1 u2 u3 u4) s)"
proof (cases "gameOver s \<or> playerHealth s \<le> 0 \<or> monsterHealth s \<le> 0")
  case True
  then show ?thesis using assms(2) by (simp add: perform_Attack_noop)
next
  case False
  then have g: "\<not> gameOver s" "0 < playerHealth s" "0 < monsterHealth s" by simp_all
  from assms(3) have r: "randomResult u2" "randomResult u4" by simp_all
  have m: "8 \<le> hitDamage u3 u4 8 15"
    using hitDamage_range [of u4 8 15 u3] r by simp
  note f = perform_Attack_fields [OF g r, of u1 u3]
  show ?thesis
  proof (cases "0 < specialAttackCooldown s")
    case True
    then have "playerHealth s < 100"
      using assms(2) g(1) by (simp add: woundedWhileCooling_def)
    then have "playerHealth (perform (Attack u1 u2 u3 u4) s) < 100"
      using m unfolding f(2) by simp
    then show ?thesis by (simp add: woundedWhileCooling_def)
  next
    case False
    then have "specialAttackCooldown (perform (Attack u1 u2 u3 u4) s) \<le> 0"
      unfolding f(4) by simp
    then show ?thesis by (simp add: woundedWhileCooling_def)
  qed
qed

lemma wounded_SpecialAttack:
  assumes "consistent s" "woundedWhileCooling s" "validAction (SpecialAttack u1 u2 u3 u4)"
  shows "woundedWhileCooling (perform (SpecialAttack u1 u2 u3 u4) s)"
proof (cases "gameOver s \<or> playerHealth s \<le> 0 \<or> monsterHealth s \<le> 0
                \<or> \<not> specialAttackAvailable s")
  case True
  then show ?thesis using assms(2) by (simp add: perform_SpecialAttack_noop)
next
  case False
  then have g: "\<not> gameOver s" "0 < playerHealth s" "0 < monsterHealth s"
    "specialAttackAvailable s" by simp_all
  from assms(3) have r: "randomResult u2" "randomResult u4" by simp_all
  have m: "8 \<le> hitDamage u3 u4 8 15"
    using hitDamage_range [of u4 8 15 u3] r by simp
  have le: "playerHealth s \<le> 100"
    using assms(1) by (simp add: consistent_def healthsClamped_def)
  note f = perform_SpecialAttack_fields [OF g r, of u1 u3]
  show ?thesis
  proof (cases "0 < monsterHealth (perform (SpecialAttack u1 u2 u3 u4) s)")
    case True
    then have "playerHealth (perform (SpecialAttack u1 u2 u3 u4) s)
        = max (playerHealth s - hitDamage u3 u4 8 15) 0"
      using f(2) by simp
    then have "playerHealth (perform (SpecialAttack u1 u2 u3 u4) s) < 100"
      using m le by simp
    then show ?thesis by (simp add: woundedWhileCooling_def)
  next
    case False
    then have "gameOver (perform (SpecialAttack u1 u2 u3 u4) s)"
      using f(3) by simp
    then show ?thesis by (simp add: woundedWhileCooling_def)
  qed
qed

lemma wounded_Heal:
  assumes "consistent s" "woundedWhileCooling s" "validAction (Heal u1 u2 u3)"
  shows "woundedWhileCooling (perform (Heal u1 u2 u3) s)"
proof (cases "gameOver s \<or> playerHealth s \<le> 0 \<or> monsterHealth s \<le> 0
                \<or> playerHealth s = 100")
  case True
  then show ?thesis using assms(2) by (simp add: perform_Heal_noop)
next
  case False
  then have g: "\<not> gameOver s" "0 < playerHealth s" "0 < monsterHealth s"
    "playerHealth s \<noteq> 100" by simp_all
  from assms(3) have r: "randomResult u3" by simp
  have m: "8 \<le> hitDamage u2 u3 8 15"
    using hitDamage_range [of u3 8 15 u2] r by simp
  have le: "playerHealth s \<le> 100"
    using assms(1) by (simp add: consistent_def healthsClamped_def)
  have "playerHealth (perform (Heal u1 u2 u3) s) < 100"
    using m le by (simp add: perform_Heal_fields(2) [OF g r])
  then show ?thesis by (simp add: woundedWhileCooling_def)
qed

lemma wounded_perform:
  assumes "consistent s" "woundedWhileCooling s" "validAction a"
  shows "woundedWhileCooling (perform a s)"
proof (cases a)
  case (Attack u1 u2 u3 u4)
  then show ?thesis using assms wounded_Attack by simp
next
  case (SpecialAttack u1 u2 u3 u4)
  then show ?thesis using assms wounded_SpecialAttack by simp
next
  case (Heal u1 u2 u3)
  then show ?thesis using assms wounded_Heal by simp
next
  case Surrender
  show ?thesis
  proof (cases "gameOver s")
    case True
    then show ?thesis using assms(2) Surrender by (simp add: perform_Surrender_noop)
  next
    case False
    then show ?thesis
      using Surrender by (simp add: perform_Surrender_eq woundedWhileCooling_def)
  qed
next
  case Reset
  then show ?thesis
    by (simp add: perform_Reset_eq woundedWhileCooling_def initialState_def)
qed

lemma wounded_fold:
  "consistent s \<Longrightarrow> woundedWhileCooling s \<Longrightarrow> list_all validAction as \<Longrightarrow>
     woundedWhileCooling (fold perform as s)"
  by (induction as arbitrary: s) (simp_all add: consistent_perform wounded_perform)

lemma wounded_run: "list_all validAction as \<Longrightarrow> woundedWhileCooling (run as)"
  unfolding run_def
  by (rule wounded_fold [OF consistent_initialState])
     (simp_all add: woundedWhileCooling_def initialState_def)


subsection \<open>The sample games\<close>

lemmas evaluate =
  run_def perform_def dispatch_def runEffects_def checkForWinner_def cooldownEffect_def
  attackMonster_def specialAttackMonster_def healPlayer_def monsterAttack_def surrender_def
  resetGame_def addLogMessage_def getRandomValue_def isCriticalHit_def constants Let_def
  initialState_def randomResult_def

lemma run_firstBlow:
  "playerHealth (run firstBlow) = 90" "monsterHealth (run firstBlow) = 92"
  "\<not> gameOver (run firstBlow)" "specialAttackCooldown (run firstBlow) = 0"
  "list_all validAction firstBlow"
  by (simp_all add: firstBlow_def evaluate)

lemma run_midFight:
  "playerHealth (run midFight) = 84" "monsterHealth (run midFight) = 56"
  "\<not> gameOver (run midFight)" "specialAttackCooldown (run midFight) = 2"
  "\<not> specialAttackAvailable (run midFight)"
  "list_all validAction midFight"
  by (simp_all add: midFight_def evaluate)


lemma run_slayTheMonster:
  "playerHealth (run slayTheMonster) = 60" "monsterHealth (run slayTheMonster) = 0"
  "gameOver (run slayTheMonster)" "specialAttackCooldown (run slayTheMonster) = 3"
  "winner (run slayTheMonster) = Some ''player''"
  "\<not> specialAttackAvailable (run slayTheMonster)"
  "list_all validAction slayTheMonster"
  by (simp_all add: slayTheMonster_def nearlySlain_def evaluate)

subsection \<open>Health writes\<close>

lemma healthsClamped_applySet:
  "clampedSet x \<Longrightarrow> healthsClamped s \<Longrightarrow> healthsClamped (applySet x s)"
  by (induction x rule: clampedSet.induct) (simp_all add: healthsClamped_def)

lemma healthsClamped_commit:
  "list_all clampedSet q \<Longrightarrow> healthsClamped s \<Longrightarrow> healthsClamped (commit q s)"
  by (induction q arbitrary: s) (simp_all add: healthsClamped_applySet)

lemma list_all_take: "list_all P q \<Longrightarrow> list_all P (take n q)"
  by (induction q arbitrary: n) (simp_all add: take_Cons split: nat.split)

lemma clamped_monsterAttack:
  assumes "healthsClamped s" "randomResult u2"
  shows "list_all clampedSet (monsterAttack u1 u2 s)"
proof -
  have "8 \<le> hitDamage u1 u2 8 15"
    using hitDamage_range [of u2 8 15 u1] assms(2) by simp
  then show ?thesis
    using assms(1) by (simp add: monsterAttack_eq addLogMessage_def healthsClamped_def)
qed

lemma clamped_attackMonster:
  assumes "healthsClamped s" "randomResult u2" "randomResult u4"
  shows "list_all clampedSet (attackMonster u1 u2 u3 u4 s)"
proof -
  have "5 \<le> hitDamage u1 u2 5 12"
    using hitDamage_range [of u2 5 12 u1] assms(2) by simp
  then show ?thesis
    using assms(1) clamped_monsterAttack [OF assms(1,3), of u3]
    by (simp add: attackMonster_eq addLogMessage_def healthsClamped_def)
qed

lemma clamped_specialAttackMonster:
  assumes "healthsClamped s" "randomResult u2" "randomResult u4"
  shows "list_all clampedSet (specialAttackMonster u1 u2 u3 u4 s)"
proof -
  have "10 \<le> hitDamage u1 u2 10 20"
    using hitDamage_range [of u2 10 20 u1] assms(2) by simp
  then show ?thesis
    using assms(1) clamped_monsterAttack [OF assms(1,3), of u3]
    by (simp add: specialAttackMonster_eq addLogMessage_def healthsClamped_def)
qed

lemma clamped_healPlayer:
  assumes "healthsClamped s" "randomResult u1" "randomResult u3"
  shows "list_all clampedSet (healPlayer u1 u2 u3 s)"
  using assms(1) healing_range [OF assms(2)] clamped_monsterAttack [OF assms(1,3), of u2]
  by (simp add: healPlayer_def addLogMessage_def healthsClamped_def Let_def)

lemma clamped_handler:
  assumes "healthsClamped s" "validAction a"
  shows "list_all clampedSet (handler a s)"
proof (cases a)
  case (Attack u1 u2 u3 u4)
  then show ?thesis using assms clamped_attackMonster by simp
next
  case (SpecialAttack u1 u2 u3 u4)
  then show ?thesis using assms clamped_specialAttackMonster by simp
next
  case (Heal u1 u2 u3)
  then show ?thesis using assms clamped_healPlayer by simp
next
  case Surrender
  then show ?thesis by (simp add: surrender_def addLogMessage_def)
next
  case Reset
  then show ?thesis by (simp add: resetGame_def)
qed

subsection \<open>Log and statistics after an action\<close>



lemma perform_Heal_record:
  fixes u1 u2 u3 :: real and s :: gameState
  assumes "\<not> gameOver s" "0 < playerHealth s" "0 < monsterHealth s" "playerHealth s \<noteq> 100"
  defines "s' \<equiv> perform (Heal u1 u2 u3) s"
    and "healing \<equiv> getRandomValue u1 HEAL_MIN_VALUE HEAL_MAX_VALUE"
  shows "battleLog s' =
           createLogAttack False (hitDamage u2 u3 8 15) (isCriticalHit u2)
           # createLogHeal healing (100 \<le> playerHealth s + healing) # battleLog s"
    and "monsterDamageDealt (gameStats s') =
           monsterDamageDealt (gameStats s) + hitDamage u2 u3 8 15"
    and "healingDone (gameStats s') =
           healingDone (gameStats s)
           + (if 100 \<le> playerHealth s + healing then 100 - playerHealth s else healing)"
proof -
  have s': "s' = runEffects s (commit (healPlayer u1 u2 u3 s) s)"
    by (simp add: s'_def perform_def dispatch_def)
  note unf = s' commit_healPlayer [OF assms(1-4)] runEffects_eq Let_def healing_def
  show "battleLog s' =
           createLogAttack False (hitDamage u2 u3 8 15) (isCriticalHit u2)
           # createLogHeal healing (100 \<le> playerHealth s + healing) # battleLog s"
    by (simp add: unf)
  show "monsterDamageDealt (gameStats s') =
           monsterDamageDealt (gameStats s) + hitDamage u2 u3 8 15"
    by (simp add: unf)
  show "healingDone (gameStats s') =
           healingDone (gameStats s)
           + (if 100 \<le> playerHealth s + healing then 100 - playerHealth s else healing)"
    by (simp add: unf)
qed

lemma capped_createLogHeal: "capped (createLogHeal healing isMaxed) = isMaxed"
proof (cases isMaxed)
  case True
  then show ?thesis
    by (simp add: capped_def createLogHeal_def suffix_def)
next
  case False
  have "\<not> suffix '' (MAX HEALTH!)'' (xs @ '' life points'')" for xs :: string
  proof
    assume "suffix '' (MAX HEALTH!)'' (xs @ '' life points'')"
    then obtain zs where "xs @ '' life points'' = zs @ '' (MAX HEALTH!)''"
      by (auto simp: suffix_def)
    then have "last (xs @ '' life points'') = last (zs @ '' (MAX HEALTH!)'')"
      by simp
    then show False by simp
  qed
  from this [of "'' heals '' @ showInt healing"] False show ?thesis
    by (simp add: capped_def createLogHeal_def)
qed


section \<open>The claims\<close>




text \<open>
  C2. Clamping invariant: after every damage or heal application performed by any action
  (attack, specialAttack, heal, monsterAttack, surrender, reset), both \<open>playerHealth\<close>
  and \<open>monsterHealth\<close> lie between 0 and 100. Stated for every state \<open>run as\<close> the
  component reaches, for the state after every initial part of the setter calls of any
  action taken there (so after each single damage or heal application, the heal's own
  write included), and for the state after the completed action.
\<close>

theorem C2_healths_clamped:
  assumes "list_all validAction as" "validAction a"
  shows "healthsClamped (run as)
       \<and> healthsClamped (commit (take n (handler a (run as))) (run as))
       \<and> healthsClamped (perform a (run as))"
proof -
  have c: "consistent (run as)" by (rule consistent_run [OF assms(1)])
  then have h: "healthsClamped (run as)" by (simp add: consistent_def)
  have "list_all clampedSet (take n (handler a (run as)))"
    by (rule list_all_take [OF clamped_handler [OF h assms(2)]])
  then have "healthsClamped (commit (take n (handler a (run as))) (run as))"
    using h by (rule healthsClamped_commit)
  moreover have "healthsClamped (perform a (run as))"
    using consistent_perform [OF c assms(2)] by (simp add: consistent_def)
  ultimately show ?thesis using h by simp
qed

theorem C2_witness:
  "list_all validAction firstBlow \<and> validAction (Heal (1/2) (1/2) (1/2))
   \<and> healthsClamped (run firstBlow)
   \<and> playerHealth (commit (take 2 (handler (Heal (1/2) (1/2) (1/2)) (run firstBlow)))
        (run firstBlow)) = 100
   \<and> healthsClamped (commit (take 2 (handler (Heal (1/2) (1/2) (1/2)) (run firstBlow)))
        (run firstBlow))
   \<and> healthsClamped (perform (Heal (1/2) (1/2) (1/2)) (run firstBlow))"
proof -
  have v: "validAction (Heal (1/2) (1/2) (1/2))" by (simp add: randomResult_def)
  have "playerHealth (commit (take 2 (handler (Heal (1/2) (1/2) (1/2)) (run firstBlow)))
        (run firstBlow)) = 100"
    by (simp add: healPlayer_def run_firstBlow getRandomValue_def constants Let_def)
  then show ?thesis
    using C2_healths_clamped [OF run_firstBlow(5) v, of 2] v run_firstBlow(5) by simp
qed

text \<open>
  C3. After every public action has completed, the recomputation of the winner included,
  \<open>gameOver\<close> is true if and only if \<open>playerHealth \<le> 0\<close> or \<open>monsterHealth \<le> 0\<close>.
  The states after an action are the states \<open>run as\<close> of the sequences of actions.
\<close>

theorem C3_gameOver_iff_health_exhausted:
  assumes "list_all validAction as"
  shows "gameOver (run as) = (playerHealth (run as) \<le> 0 \<or> monsterHealth (run as) \<le> 0)"
  using consistent_run [OF assms] unfolding consistent_def by blast

theorem C3_witness:
  "list_all validAction slayTheMonster \<and> gameOver (run slayTheMonster)
   \<and> monsterHealth (run slayTheMonster) \<le> 0
   \<and> list_all validAction firstBlow \<and> \<not> gameOver (run firstBlow)
   \<and> \<not> (playerHealth (run firstBlow) \<le> 0 \<or> monsterHealth (run firstBlow) \<le> 0)"
  using C3_gameOver_iff_health_exhausted [of slayTheMonster]
    C3_gameOver_iff_health_exhausted [of firstBlow]
  by (simp add: run_slayTheMonster run_firstBlow)

text \<open>
  C4. Winner determination is a deterministic function of the final healths: if both
  healths are \<open>\<le> 0\<close> the winner is draw; if only \<open>monsterHealth \<le> 0\<close> the winner is
  player; if only \<open>playerHealth \<le> 0\<close> the winner is monster; otherwise the winner is
  unchanged; and whenever a winner is determined, \<open>gameOver\<close> is set to true.
  The setter calls of \<open>checkForWinner\<close> depend on the two healths only, and applied to
  the state they give exactly these results.
\<close>

theorem C4_winner_determination:
  "commit (checkForWinner s) s =
     (if monsterHealth s \<le> 0 \<and> playerHealth s \<le> 0
      then s\<lparr>winner := Some ''draw'', gameOver := True\<rparr>
      else if monsterHealth s \<le> 0
      then s\<lparr>winner := Some ''player'', gameOver := True\<rparr>
      else if playerHealth s \<le> 0
      then s\<lparr>winner := Some ''monster'', gameOver := True\<rparr>
      else s)
   \<and> (playerHealth t = playerHealth s \<and> monsterHealth t = monsterHealth s
        \<longrightarrow> checkForWinner t = checkForWinner s)"
  by (simp add: checkForWinner_def)

theorem C4_witness:
  "playerHealth (initialState\<lparr>monsterHealth := 0, currentRound := 7\<rparr>)
     = playerHealth (initialState\<lparr>monsterHealth := 0\<rparr>)
   \<and> monsterHealth (initialState\<lparr>monsterHealth := 0, currentRound := 7\<rparr>)
     = monsterHealth (initialState\<lparr>monsterHealth := 0\<rparr>)
   \<and> checkForWinner (initialState\<lparr>monsterHealth := 0, currentRound := 7\<rparr>)
     = checkForWinner (initialState\<lparr>monsterHealth := 0\<rparr>)
   \<and> commit (checkForWinner (initialState\<lparr>monsterHealth := 0\<rparr>))
        (initialState\<lparr>monsterHealth := 0\<rparr>)
     = initialState\<lparr>monsterHealth := 0, winner := Some ''player'', gameOver := True\<rparr>"
  using C4_winner_determination
    [of "initialState\<lparr>monsterHealth := 0\<rparr>"
        "initialState\<lparr>monsterHealth := 0, currentRound := 7\<rparr>"]
  by (simp add: initialState_def)




text \<open>
  C6. Special-attack cooldown: \<open>specialAttack()\<close> is a silent no-op while
  \<open>specialAttackCooldown > 0\<close>; a successful \<open>specialAttack()\<close> sets the cooldown to 3
  and does not decrement it within that same call; each subsequent \<open>attack()\<close> or
  \<open>heal()\<close> call decrements the cooldown by exactly 1 when it is positive, so the special
  attack becomes usable again exactly when the cooldown reaches 0.
  Stated for every state \<open>run as\<close> the component reaches; the calls that follow a
  special attack are those of the game in progress (in a finished game every action but
  the reset is the no-op of C9). While the cooldown is positive in such a game the
  player's health is below 100, so that the heal passes its guard as the attack does.
\<close>

theorem C6_cooldown:
  assumes "list_all validAction as"
    and "randomResult u1" "randomResult u2" "randomResult u3" "randomResult u4"
  shows
    "(0 < specialAttackCooldown (run as) \<longrightarrow>
        perform (SpecialAttack u1 u2 u3 u4) (run as) = run as)
     \<and> (\<not> gameOver (run as) \<and> specialAttackCooldown (run as) = 0 \<longrightarrow>
        specialAttackCooldown (perform (SpecialAttack u1 u2 u3 u4) (run as)) = 3
        \<and> \<not> specialAttackAvailable (perform (SpecialAttack u1 u2 u3 u4) (run as)))
     \<and> (\<not> gameOver (run as) \<and> 0 < specialAttackCooldown (run as) \<longrightarrow>
        specialAttackCooldown (perform (Attack u1 u2 u3 u4) (run as))
          = specialAttackCooldown (run as) - 1
        \<and> specialAttackCooldown (perform (Heal u1 u2 u3) (run as))
          = specialAttackCooldown (run as) - 1)
     \<and> specialAttackAvailable (run as) = (specialAttackCooldown (run as) = 0)"
proof -
  have c: "consistent (run as)" by (rule consistent_run [OF assms(1)])
  then have av: "specialAttackAvailable (run as) = (specialAttackCooldown (run as) = 0)"
    by (simp add: consistent_def)
  have w: "woundedWhileCooling (run as)" by (rule wounded_run [OF assms(1)])
  have pos: "0 < playerHealth (run as)" "0 < monsterHealth (run as)" if "\<not> gameOver (run as)"
    using c that by (auto simp: consistent_def)
  have 1: "perform (SpecialAttack u1 u2 u3 u4) (run as) = run as"
    if "0 < specialAttackCooldown (run as)"
    using that av by (simp add: perform_SpecialAttack_noop)
  have 2: "specialAttackCooldown (perform (SpecialAttack u1 u2 u3 u4) (run as)) = 3
        \<and> \<not> specialAttackAvailable (perform (SpecialAttack u1 u2 u3 u4) (run as))"
    if "\<not> gameOver (run as)" "specialAttackCooldown (run as) = 0"
    using perform_SpecialAttack_fields(4,5) [OF that(1) pos [OF that(1)] _ assms(3,5), of u1 u3]
      av that(2) by simp
  have 3: "specialAttackCooldown (perform (Attack u1 u2 u3 u4) (run as))
          = specialAttackCooldown (run as) - 1"
    if "\<not> gameOver (run as)" "0 < specialAttackCooldown (run as)"
    using perform_Attack_fields(4) [OF that(1) pos [OF that(1)] assms(3,5), of u1 u3] that(2)
    by simp
  have 4: "specialAttackCooldown (perform (Heal u1 u2 u3) (run as))
          = specialAttackCooldown (run as) - 1"
    if "\<not> gameOver (run as)" "0 < specialAttackCooldown (run as)"
  proof -
    have ne: "playerHealth (run as) \<noteq> 100"
      using w that by (simp add: woundedWhileCooling_def)
    show ?thesis
      using perform_Heal_fields(4) [OF that(1) pos [OF that(1)] ne assms(4), of u1 u2] that(2)
      by simp
  qed
  from 1 2 3 4 av show ?thesis by blast
qed

theorem C6_witness:
  "list_all validAction midFight \<and> randomResult (1/2)
   \<and> 0 < specialAttackCooldown (run midFight) \<and> \<not> gameOver (run midFight)
   \<and> specialAttackCooldown (run midFight) = 2
   \<and> perform (SpecialAttack (1/2) (1/2) (1/2) (1/2)) (run midFight) = run midFight
   \<and> specialAttackCooldown (perform (Attack (1/2) (1/2) (1/2) (1/2)) (run midFight)) = 1
   \<and> specialAttackCooldown (perform (Heal (1/2) (1/2) (1/2)) (run midFight)) = 1
   \<and> list_all validAction firstBlow \<and> \<not> gameOver (run firstBlow)
   \<and> specialAttackCooldown (run firstBlow) = 0
   \<and> specialAttackCooldown (perform (SpecialAttack (1/2) (1/2) (1/2) (1/2)) (run firstBlow)) = 3
   \<and> \<not> specialAttackAvailable (perform (SpecialAttack (1/2) (1/2) (1/2) (1/2)) (run firstBlow))"
proof -
  have r: "randomResult (1/2)" by (simp add: randomResult_def)
  show ?thesis
    using C6_cooldown [OF run_midFight(6) r r r r] C6_cooldown [OF run_firstBlow(5) r r r r] r
    by (simp add: run_midFight run_firstBlow)
qed

text \<open>
  C7. Capped heal accounting: a \<open>heal()\<close> call records capped = true in its log entry
  exactly when the rolled healing amount would have exceeded the ceiling of 100, and the
  \<open>healingDone\<close> count goes up by the healing applied (\<open>100 - playerHealth\<close> before the
  heal when capped, otherwise the full roll).

  As stated this fails where the roll brings the health to 100 exactly: with 90 health
  and a roll of 10 nothing exceeds the ceiling, and the entry of the heal (the second of
  the log, under the monster's) is marked.
\<close>

theorem C7_counterexample:
  "playerHealth (run firstBlow) = 90
   \<and> getRandomValue (1/5) HEAL_MIN_VALUE HEAL_MAX_VALUE = 10
   \<and> \<not> 100 < playerHealth (run firstBlow) + getRandomValue (1/5) HEAL_MIN_VALUE HEAL_MAX_VALUE
   \<and> battleLog (perform (Heal (1/5) (1/2) (1/2)) (run firstBlow)) ! 1 = createLogHeal 10 True
   \<and> capped (battleLog (perform (Heal (1/5) (1/2) (1/2)) (run firstBlow)) ! 1)"
proof -
  have h: "getRandomValue (1/5) HEAL_MIN_VALUE HEAL_MAX_VALUE = 10"
    by (simp add: getRandomValue_def constants)
  have "battleLog (perform (Heal (1/5) (1/2) (1/2)) (run firstBlow)) ! 1 = createLogHeal 10 True"
    by (simp add: perform_Heal_record(1) run_firstBlow h)
  then show ?thesis
    by (simp add: h run_firstBlow capped_createLogHeal)
qed

text \<open>
  C7, amended. A \<open>heal()\<close> call that passes its guard marks its log entry as capped
  exactly when \<open>playerHealth + healing \<ge> 100\<close>, that is when the roll reaches or
  exceeds the ceiling, and the \<open>healingDone\<close> count goes up by \<open>100 - playerHealth\<close>
  (the health before the heal) when so capped, otherwise by the full roll.
\<close>

theorem C7_capped_heal:
  assumes "\<not> gameOver s" "0 < playerHealth s" "0 < monsterHealth s" "playerHealth s \<noteq> 100"
  shows "battleLog (perform (Heal u1 u2 u3) s) ! 1
           = createLogHeal (getRandomValue u1 HEAL_MIN_VALUE HEAL_MAX_VALUE)
               (100 \<le> playerHealth s + getRandomValue u1 HEAL_MIN_VALUE HEAL_MAX_VALUE)
       \<and> capped (battleLog (perform (Heal u1 u2 u3) s) ! 1)
           = (100 \<le> playerHealth s + getRandomValue u1 HEAL_MIN_VALUE HEAL_MAX_VALUE)
       \<and> healingDone (gameStats (perform (Heal u1 u2 u3) s))
           = healingDone (gameStats s)
             + (if 100 \<le> playerHealth s + getRandomValue u1 HEAL_MIN_VALUE HEAL_MAX_VALUE
                then 100 - playerHealth s
                else getRandomValue u1 HEAL_MIN_VALUE HEAL_MAX_VALUE)"
  by (simp add: perform_Heal_record [OF assms] capped_createLogHeal)

theorem C7_witness:
  "\<not> gameOver (run midFight) \<and> 0 < playerHealth (run midFight)
   \<and> 0 < monsterHealth (run midFight) \<and> playerHealth (run midFight) \<noteq> 100
   \<and> battleLog (perform (Heal 0 (1/2) (1/2)) (run midFight)) ! 1 = createLogHeal 8 False
   \<and> \<not> capped (battleLog (perform (Heal 0 (1/2) (1/2)) (run midFight)) ! 1)
   \<and> healingDone (gameStats (perform (Heal 0 (1/2) (1/2)) (run midFight)))
       = healingDone (gameStats (run midFight)) + 8
   \<and> capped (battleLog (perform (Heal (99/100) (1/2) (1/2)) (run midFight)) ! 1)
   \<and> healingDone (gameStats (perform (Heal (99/100) (1/2) (1/2)) (run midFight)))
       = healingDone (gameStats (run midFight)) + 16"
proof -
  have h: "getRandomValue 0 HEAL_MIN_VALUE HEAL_MAX_VALUE = 8"
    "getRandomValue (99/100) HEAL_MIN_VALUE HEAL_MAX_VALUE = 19"
    by (simp_all add: getRandomValue_def constants)
  have g: "\<not> gameOver (run midFight)" "0 < playerHealth (run midFight)"
    "0 < monsterHealth (run midFight)" "playerHealth (run midFight) \<noteq> 100"
    by (simp_all add: run_midFight)
  show ?thesis
    using C7_capped_heal [OF g, of 0 "1/2" "1/2"] C7_capped_heal [OF g, of "99/100" "1/2" "1/2"]
    by (simp add: h run_midFight capped_createLogHeal)
qed

text \<open>
  C8. \<open>surrender()\<close>: for every state where \<open>gameOver\<close> is false, it sets
  \<open>playerHealth\<close> to 0, \<open>winner\<close> to monster, \<open>gameOver\<close> to true and puts a surrender
  entry on the log (an entry of the player, no damage, with the text
  \<open>surrendered to the monster!\<close>), independent of the current health values and without
  a monster attack; when \<open>gameOver\<close> is already true it changes no state. The first
  conjunct is the completed action in every state the component reaches, the second the
  handler's own setter calls in any state whatever, the third the no-op.
\<close>

theorem C8_surrender:
  "(list_all validAction as \<and> \<not> gameOver (run as) \<longrightarrow>
      perform Surrender (run as) =
        (run as)\<lparr>playerHealth := 0, winner := Some ''monster'', gameOver := True,
                 battleLog :=
                   \<lparr>isPlayer = True, isDamage = False, isCritical = None,
                     logText = '' surrendered to the monster!''\<rparr> # battleLog (run as)\<rparr>)
   \<and> (\<not> gameOver s \<longrightarrow>
      commit (surrender s) s =
        s\<lparr>playerHealth := 0, winner := Some ''monster'', gameOver := True,
          battleLog :=
            \<lparr>isPlayer = True, isDamage = False, isCritical = None,
              logText = '' surrendered to the monster!''\<rparr> # battleLog s\<rparr>)
   \<and> (gameOver s \<longrightarrow> perform Surrender s = s)"
proof -
  have "perform Surrender (run as) =
        (run as)\<lparr>playerHealth := 0, winner := Some ''monster'', gameOver := True,
                 battleLog :=
                   \<lparr>isPlayer = True, isDamage = False, isCritical = None,
                     logText = '' surrendered to the monster!''\<rparr> # battleLog (run as)\<rparr>"
    if "list_all validAction as" "\<not> gameOver (run as)"
  proof -
    have "0 < monsterHealth (run as)"
      using consistent_run [OF that(1)] that(2) by (auto simp: consistent_def)
    then show ?thesis
      by (simp add: perform_Surrender_eq [OF that(2)] surrenderEntry_def)
  qed
  then show ?thesis
    by (simp add: commit_surrender perform_Surrender_noop surrenderEntry_def)
qed

theorem C8_witness:
  "list_all validAction firstBlow \<and> \<not> gameOver (run firstBlow)
   \<and> perform Surrender (run firstBlow) =
        (run firstBlow)\<lparr>playerHealth := 0, winner := Some ''monster'', gameOver := True,
           battleLog :=
             \<lparr>isPlayer = True, isDamage = False, isCritical = None,
               logText = '' surrendered to the monster!''\<rparr> # battleLog (run firstBlow)\<rparr>
   \<and> commit (surrender (run firstBlow)) (run firstBlow) =
        (run firstBlow)\<lparr>playerHealth := 0, winner := Some ''monster'', gameOver := True,
           battleLog :=
             \<lparr>isPlayer = True, isDamage = False, isCritical = None,
               logText = '' surrendered to the monster!''\<rparr> # battleLog (run firstBlow)\<rparr>
   \<and> gameOver (run slayTheMonster)
   \<and> perform Surrender (run slayTheMonster) = run slayTheMonster"
  using C8_surrender [of firstBlow "run firstBlow"] C8_surrender [of firstBlow "run slayTheMonster"]
  by (simp add: run_firstBlow run_slayTheMonster)

text \<open>
  C9. No-op-on-invalid contract: every public action except surrender and reset changes
  no state at all when \<open>gameOver\<close> is true or either health is already \<open>\<le> 0\<close>; heal
  changes none at full player health either, and the special attack none while its
  cooldown is active. The handlers have no statement that raises: an invalid call
  returns at its guard. The first two conjuncts hold in any state whatever; the guard of
  the special attack reads \<open>specialAttackAvailable\<close>, which in every state the component
  reaches is false exactly while the cooldown is positive.
\<close>

theorem C9_invalid_calls_change_nothing:
  "(gameOver s \<or> playerHealth s \<le> 0 \<or> monsterHealth s \<le> 0 \<longrightarrow>
      perform (Attack u1 u2 u3 u4) s = s
      \<and> perform (SpecialAttack u1 u2 u3 u4) s = s
      \<and> perform (Heal u1 u2 u3) s = s)
   \<and> (playerHealth s = 100 \<longrightarrow> perform (Heal u1 u2 u3) s = s)
   \<and> (list_all validAction as \<and> 0 < specialAttackCooldown (run as) \<longrightarrow>
      perform (SpecialAttack u1 u2 u3 u4) (run as) = run as)"
proof -
  have "perform (SpecialAttack u1 u2 u3 u4) (run as) = run as"
    if "list_all validAction as" "0 < specialAttackCooldown (run as)"
  proof -
    have "\<not> specialAttackAvailable (run as)"
      using consistent_run [OF that(1)] that(2) by (simp add: consistent_def)
    then show ?thesis by (simp add: perform_SpecialAttack_noop)
  qed
  then show ?thesis
    by (auto simp: perform_Attack_noop perform_SpecialAttack_noop perform_Heal_noop)
qed

theorem C9_witness:
  "gameOver (run slayTheMonster)
   \<and> perform (Attack (1/2) (1/2) (1/2) (1/2)) (run slayTheMonster) = run slayTheMonster
   \<and> perform (SpecialAttack (1/2) (1/2) (1/2) (1/2)) (run slayTheMonster) = run slayTheMonster
   \<and> perform (Heal (1/2) (1/2) (1/2)) (run slayTheMonster) = run slayTheMonster
   \<and> playerHealth initialState = 100
   \<and> perform (Heal (1/2) (1/2) (1/2)) initialState = initialState
   \<and> list_all validAction midFight \<and> 0 < specialAttackCooldown (run midFight)
   \<and> perform (SpecialAttack (1/2) (1/2) (1/2) (1/2)) (run midFight) = run midFight"
  using C9_invalid_calls_change_nothing
      [where s = "run slayTheMonster" and as = midFight
         and ?u1.0 = "1/2" and ?u2.0 = "1/2" and ?u3.0 = "1/2" and ?u4.0 = "1/2"]
    C9_invalid_calls_change_nothing
      [where s = initialState and as = midFight
         and ?u1.0 = "1/2" and ?u2.0 = "1/2" and ?u3.0 = "1/2" and ?u4.0 = "1/2"]
  by (simp add: run_slayTheMonster run_midFight initialState_def)

text \<open>
  C10. Frame property of \<open>surrender()\<close>: besides \<open>playerHealth\<close>, \<open>winner\<close>,
  \<open>gameOver\<close> and the log, it leaves every other state field unchanged:
  \<open>monsterHealth\<close>, the round counter, the cooldown of the special attack (and its
  availability), \<open>lastActionWasCritical\<close> and all the counters of the statistics.
\<close>

theorem C10_surrender_frame:
  "monsterHealth (perform Surrender s) = monsterHealth s
   \<and> currentRound (perform Surrender s) = currentRound s
   \<and> specialAttackCooldown (perform Surrender s) = specialAttackCooldown s
   \<and> specialAttackAvailable (perform Surrender s) = specialAttackAvailable s
   \<and> lastActionWasCritical (perform Surrender s) = lastActionWasCritical s
   \<and> gameStats (perform Surrender s) = gameStats s"
proof (cases "gameOver s")
  case True
  then show ?thesis by (simp add: perform_Surrender_noop)
next
  case False
  then show ?thesis by (simp add: perform_Surrender_eq)
qed

end
